theory Spec2Isabelle
  imports Complex_Main "HOL-Library.Word"
begin

section \<open>JavaScript string operations used by App.tsx\<close>

text \<open>
  Strings are character lists; the operations below only compare and splice characters.
  \<open>endsWith\<close> follows String.prototype.endsWith with no end position: an empty search
  string matches, a search string longer than the receiver does not, and otherwise the
  last \<open>length searchString\<close> characters are compared.
\<close>

definition endsWith :: "string \<Rightarrow> string \<Rightarrow> bool" where
  "endsWith S searchString =
     (let len = int (length S);
          searchLength = int (length searchString);
          start = len - searchLength
      in if searchLength = 0 then True
         else if start < 0 then False
         else drop (nat start) S = searchString)"

text \<open>
  \<open>indexOf S pat\<close> is the position of the first occurrence of \<open>pat\<close> in \<open>S\<close>, scanning
  from the left. \<open>replace\<close> is String.prototype.replace with a string pattern and a
  replacement free of dollar patterns (App.tsx passes the empty string): only the first
  occurrence is replaced, and a receiver without an occurrence is returned as it is.
\<close>

fun indexOf :: "string \<Rightarrow> string \<Rightarrow> nat option" where
  "indexOf [] pat = (if pat = [] then Some 0 else None)"
| "indexOf (c # cs) pat =
     (if take (length pat) (c # cs) = pat then Some 0
      else map_option Suc (indexOf cs pat))"

definition replace :: "string \<Rightarrow> string \<Rightarrow> string \<Rightarrow> string" where
  "replace S searchValue replaceValue =
     (case indexOf S searchValue of
        None \<Rightarrow> S
      | Some pos \<Rightarrow> take pos S @ replaceValue @ drop (pos + length searchValue) S)"

text \<open>
  The template literal \<open>cert_${Date.now()}\<close> renders a number as a string. \<open>Date.now()\<close>
  is an integral number of milliseconds, far below \<open>10^21\<close> in magnitude, and JavaScript
  prints such a number in plain decimal, with a leading minus sign below zero.
\<close>

definition digit_char :: "nat \<Rightarrow> char" where
  "digit_char d = ''0123456789'' ! d"

fun nat_toString :: "nat \<Rightarrow> string" where
  "nat_toString n =
     (if n < 10 then [digit_char n]
      else nat_toString (n div 10) @ [digit_char (n mod 10)])"

definition Number_toString :: "int \<Rightarrow> string" where
  "Number_toString k =
     (if k < 0 then CHR ''-'' # nat_toString (nat (- k)) else nat_toString (nat k))"


section \<open>Data model\<close>

type_synonym byte = "8 word"

text \<open>
  A browser File as far as App.tsx reads it: its name and its binary content (its size is
  the length of the content). The file input delivers values of this type.
\<close>

record File =
  name :: string
  content :: "byte list"

text \<open>
  The value held in the \<open>file\<close> field of a record, as \<open>handleDownload\<close> meets it at run
  time. The interface types the field \<open>File\<close>, but types are erased at run time and
  \<open>handleDownload\<close> tests the value: it is a File object, which is an instance of Blob,
  or some other value that is not. An absent field is \<open>None\<close> in the record.
\<close>

datatype handle = FileObject File | NotABlob

fun instanceof_Blob :: "handle \<Rightarrow> bool" where
  "instanceof_Blob (FileObject f) = True"
| "instanceof_Blob NotABlob = False"

datatype cert_status = revoked | active | processing

datatype cert_type = development | distribution

record CertificateInfo =
  id_c :: string
  name_c :: string
  status :: cert_status
  issueDate :: string
  expiryDate :: string
  bundleId :: string
  type_c :: cert_type
  file_c :: "handle option"

datatype toast_variant = Default | Destructive

record toast =
  title :: string
  description :: string
  variant :: toast_variant

text \<open>
  What a handler sends out of the component: a notification, or the click on a temporary
  anchor whose \<open>download\<close> attribute is the given file name and whose \<open>href\<close> is an object
  URL of a blob with the given content.
\<close>

datatype effect = Toast toast | SaveAs string "byte list"

text \<open>
  The three \<open>useState\<close> cells of the component, and the value of the file input element
  that the completed run resets.
\<close>

record app_state =
  certificates :: "CertificateInfo list"
  selectedFile :: "File option"
  isProcessing :: bool
  fileInputValue :: string

definition initial_state :: app_state where
  "initial_state =
     \<lparr>certificates = [], selectedFile = None, isProcessing = False, fileInputValue = []\<rparr>"

text \<open>
  What the environment supplies when a run completes: the three readings of \<open>Date.now()\<close>
  (for the identifier, the issue date and the expiry date) and the draw of
  \<open>Math.random()\<close>.
\<close>

record completion_env =
  now_id :: int
  now_issue :: int
  now_expiry :: int
  math_random :: real

text \<open>
  A suspended invocation of \<open>simulateUnrevoke\<close>: the \<open>selectedFile\<close> its closure captured
  and the loop counter \<open>i\<close> at the pending \<open>await\<close>.
\<close>

record run =
  run_file :: File
  run_i :: nat


section \<open>The handlers\<close>

definition invalid_format :: toast where
  "invalid_format =
     \<lparr>title = ''Invalid file format'',
      description = ''Please upload a .p12 certificate file'',
      variant = Destructive\<rparr>"

definition handleFileUpload :: "File option \<Rightarrow> app_state \<Rightarrow> app_state \<times> effect list" where
  "handleFileUpload file s =
     (case file of
        Some f \<Rightarrow>
          if endsWith (name f) ''.p12''
          then (s\<lparr>selectedFile := Some f\<rparr>,
                [Toast \<lparr>title = ''Certificate uploaded'',
                        description = name f @ '' ready for processing'',
                        variant = Default\<rparr>])
          else (s, [Toast invalid_format])
      | None \<Rightarrow> (s, [Toast invalid_format]))"

definition missing_file :: toast where
  "missing_file =
     \<lparr>title = ''Missing file'',
      description = ''Please upload a certificate file.'',
      variant = Destructive\<rparr>"

definition steps :: "(nat \<times> string) list" where
  "steps =
     [(20, ''Validating certificate...''),
      (40, ''Decrypting P12 file...''),
      (60, ''Checking revocation status...''),
      (80, ''Initiating unrevoke process...''),
      (100, ''Certificate unrevoked successfully!'')]"

text \<open>
  \<open>simulateUnrevoke\<close> up to its first \<open>await\<close>. Without a selected file it emits the
  notification and returns. Otherwise it sets \<open>isProcessing\<close> and enters the loop at
  \<open>i = 0\<close>; the array \<open>steps\<close> has five entries, so the loop test holds there and the
  invocation suspends on the first timer.
\<close>

definition simulateUnrevoke :: "app_state \<Rightarrow> app_state \<times> effect list \<times> run option" where
  "simulateUnrevoke s =
     (case selectedFile s of
        None \<Rightarrow> (s, [Toast missing_file], None)
      | Some f \<Rightarrow> (s\<lparr>isProcessing := True\<rparr>, [], Some \<lparr>run_file = f, run_i = 0\<rparr>))"

text \<open>
  The record built after the loop. \<open>L\<close> is \<open>new Date(t).toLocaleDateString()\<close> as a
  function of the time value \<open>t\<close>; it depends on the host's locale.
\<close>

definition newCert :: "(int \<Rightarrow> string) \<Rightarrow> completion_env \<Rightarrow> File \<Rightarrow> CertificateInfo" where
  "newCert L env f =
     \<lparr>id_c = ''cert_'' @ Number_toString (now_id env),
      name_c = replace (name f) ''.p12'' [],
      status = active,
      issueDate = L (now_issue env - 30 * 24 * 60 * 60 * 1000),
      expiryDate = L (now_expiry env + 365 * 24 * 60 * 60 * 1000),
      bundleId = ''com.example.app'',
      type_c = (if math_random env > 0.5 then development else distribution),
      file_c = Some (FileObject f)\<rparr>"

definition success :: toast where
  "success =
     \<lparr>title = ''Success!'',
      description = ''Certificate has been successfully unrevoked'',
      variant = Default\<rparr>"

text \<open>
  The code after the loop: prepend the record (a functional update, so it acts on the
  current list), notify, clear the selection and reset the file input.
\<close>

definition complete :: "(int \<Rightarrow> string) \<Rightarrow> completion_env \<Rightarrow> File \<Rightarrow> app_state \<Rightarrow> app_state \<times> effect list" where
  "complete L env f s =
     (s\<lparr>certificates := newCert L env f # certificates s,
        selectedFile := None,
        fileInputValue := []\<rparr>,
      [Toast success])"

text \<open>
  A timer of a suspended run fires: \<open>i++\<close>, then the loop test. Either the run suspends
  on the next timer or it leaves the loop and completes in the same task.
\<close>

definition resume :: "(int \<Rightarrow> string) \<Rightarrow> completion_env \<Rightarrow> run \<Rightarrow> app_state \<Rightarrow> app_state \<times> effect list \<times> run option" where
  "resume L env r s =
     (let i = Suc (run_i r)
      in if i < length steps then (s, [], Some (r\<lparr>run_i := i\<rparr>))
         else (case complete L env (run_file r) s of (s', es) \<Rightarrow> (s', es, None)))"

definition download_failed :: toast where
  "download_failed =
     \<lparr>title = ''Download failed'',
      description = ''Certificate file is missing or invalid.'',
      variant = Destructive\<rparr>"

text \<open>
  \<open>URL.createObjectURL\<close> gives a URL that serves the content of a Blob, and throws a
  TypeError (\<open>None\<close>) on a value that is not one.
\<close>

fun createObjectURL :: "handle \<Rightarrow> byte list option" where
  "createObjectURL (FileObject f) = Some (content f)"
| "createObjectURL NotABlob = None"

text \<open>
  \<open>handleDownload\<close> reads no component state and writes none; the state is passed through
  so that all handlers have one shape. The guard has two parts: \<open>!file\<close> holds of an
  absent value, and \<open>!(file instanceof Blob)\<close> of a value that is not a Blob. Past the
  guard the click on the anchor saves what the object URL serves; an exception from
  \<open>createObjectURL\<close> would end the handler with nothing emitted. The anchor and the
  object URL are removed 100 ms after the click, which changes nothing the component
  reads.
\<close>

definition handleDownload :: "handle option \<Rightarrow> string \<Rightarrow> app_state \<Rightarrow> app_state \<times> effect list" where
  "handleDownload file nm s =
     (case file of
        None \<Rightarrow> (s, [Toast download_failed])
      | Some h \<Rightarrow>
          if \<not> instanceof_Blob h then (s, [Toast download_failed])
          else (case createObjectURL h of
                  None \<Rightarrow> (s, [])
                | Some bytes \<Rightarrow>
                    (s, [SaveAs (if endsWith nm ''.p12'' then nm else nm @ ''.p12'') bytes])))"


section \<open>The component as a machine\<close>

text \<open>
  The world holds the component state, the suspended runs and everything emitted so far
  (oldest first). An event is one call of a handler or one timer firing. \<open>step\<close> calls
  the handlers as the functions they are; \<open>enabled\<close> below says which events the rendered
  component can deliver.
\<close>

record world =
  app :: app_state
  suspended :: "run list"
  emitted :: "effect list"

definition initial_world :: world where
  "initial_world = \<lparr>app = initial_state, suspended = [], emitted = []\<rparr>"

datatype event =
    Change "File option"
  | Unrevoke
  | Timer nat completion_env
  | Download nat

fun step :: "(int \<Rightarrow> string) \<Rightarrow> world \<Rightarrow> event \<Rightarrow> world" where
  "step L w (Change file) =
     (case handleFileUpload file (app w) of
        (s', es) \<Rightarrow> w\<lparr>app := s', emitted := emitted w @ es\<rparr>)"
| "step L w Unrevoke =
     (case simulateUnrevoke (app w) of
        (s', es, r) \<Rightarrow>
          w\<lparr>app := s',
            suspended := (case r of None \<Rightarrow> suspended w | Some r' \<Rightarrow> suspended w @ [r']),
            emitted := emitted w @ es\<rparr>)"
| "step L w (Timer k env) =
     (if k < length (suspended w)
      then (case resume L env (suspended w ! k) (app w) of
              (s', es, r) \<Rightarrow>
                w\<lparr>app := s',
                  suspended := (case r of
                                  None \<Rightarrow> take k (suspended w) @ drop (Suc k) (suspended w)
                                | Some r' \<Rightarrow> (suspended w)[k := r']),
                  emitted := emitted w @ es\<rparr>)
      else w)"
| "step L w (Download k) =
     (if k < length (certificates (app w))
      then (case handleDownload (file_c (certificates (app w) ! k))
                   (name_c (certificates (app w) ! k)) (app w) of
              (s', es) \<Rightarrow> w\<lparr>app := s', emitted := emitted w @ es\<rparr>)
      else w)"

definition run_events :: "(int \<Rightarrow> string) \<Rightarrow> world \<Rightarrow> event list \<Rightarrow> world" where
  "run_events L w evs = foldl (step L) w evs"




text \<open>
  The provenance invariant of the machine, relative to a set \<open>E\<close> of events that have
  happened: every stored record, the current selection and every suspended run hold a file
  that some change event of \<open>E\<close> delivered.
\<close>

definition files_uploaded :: "event set \<Rightarrow> world \<Rightarrow> bool" where
  "files_uploaded E w \<longleftrightarrow>
     (\<forall>c \<in> set (certificates (app w)).
        \<exists>f. file_c c = Some (FileObject f) \<and> Change (Some f) \<in> E) \<and>
     (case selectedFile (app w) of None \<Rightarrow> True | Some f \<Rightarrow> Change (Some f) \<in> E) \<and>
     (\<forall>r \<in> set (suspended w). Change (Some (run_file r)) \<in> E)"



section \<open>Concrete inputs\<close>

text \<open>
  Files, completion environments and a date format for the concrete runs below. The date
  format stands for one locale's \<open>toLocaleDateString\<close>; it prints the time value itself.
\<close>

definition mycert :: File where
  "mycert = \<lparr>name = ''mycert.p12'', content = [0x30, 0x82, 0x0A, 0x01]\<rparr>"

definition backup_cert :: File where
  "backup_cert = \<lparr>name = ''dev.p12.backup.p12'', content = [0x30, 0x82, 0x0B]\<rparr>"

definition upper_cert :: File where
  "upper_cert = \<lparr>name = ''MYCERT.P12'', content = [0x30, 0x82]\<rparr>"

definition env_a :: completion_env where
  "env_a =
     \<lparr>now_id = 1700000000000, now_issue = 1700000000000, now_expiry = 1700000000001,
      math_random = 0.75\<rparr>"

definition env_b :: completion_env where
  "env_b =
     \<lparr>now_id = 1700000006000, now_issue = 1700000006000, now_expiry = 1700000006000,
      math_random = 0.25\<rparr>"

definition ms_date :: "int \<Rightarrow> string" where
  "ms_date t = Number_toString t"

definition orphan :: CertificateInfo where
  "orphan =
     \<lparr>id_c = ''cert_0'', name_c = ''orphan'', status = revoked, issueDate = ''0'',
      expiryDate = ''0'', bundleId = ''com.example.app'', type_c = distribution,
      file_c = None\<rparr>"

definition forged :: CertificateInfo where
  "forged =
     \<lparr>id_c = ''cert_1'', name_c = ''forged'', status = active, issueDate = ''0'',
      expiryDate = ''0'', bundleId = ''com.example.app'', type_c = development,
      file_c = Some NotABlob\<rparr>"

definition one_run :: "File \<Rightarrow> completion_env \<Rightarrow> event list" where
  "one_run f env =
     [Change (Some f), Unrevoke, Timer 0 env, Timer 0 env, Timer 0 env, Timer 0 env,
      Timer 0 env]"


section \<open>Facts about the string operations\<close>

lemma endsWith_iff_append: "endsWith S p \<longleftrightarrow> (\<exists>q. S = q @ p)"
proof (cases "length p \<le> length S")
  case True
  have "drop (length S - length p) S = p \<longleftrightarrow> (\<exists>q. S = q @ p)"
  proof
    assume "drop (length S - length p) S = p"
    then have "S = take (length S - length p) S @ p"
      by (metis append_take_drop_id)
    then show "\<exists>q. S = q @ p" ..
  next
    assume "\<exists>q. S = q @ p"
    then obtain q where "S = q @ p" ..
    then show "drop (length S - length p) S = p" by simp
  qed
  with True show ?thesis
    by (auto simp: endsWith_def Let_def nat_diff_distrib')
next
  case False
  then have "\<not> (\<exists>q. S = q @ p)" by auto
  with False show ?thesis
    by (auto simp: endsWith_def Let_def)
qed

text \<open>Decimal rendering is injective, so an identifier determines its time value.\<close>

declare nat_toString.simps [simp del]

lemma digit_char_inj: "d < 10 \<Longrightarrow> e < 10 \<Longrightarrow> digit_char d = digit_char e \<Longrightarrow> d = e"
proof -
  assume d: "d < 10" and e: "e < 10" and eq: "digit_char d = digit_char e"
  have dist: "distinct ''0123456789''" by simp
  have len: "length ''0123456789'' = 10" by simp
  from d e eq show "d = e"
    unfolding digit_char_def using nth_eq_iff_index_eq [OF dist, of d e] len by simp
qed

lemma digit_char_not_minus: "d < 10 \<Longrightarrow> digit_char d \<noteq> CHR ''-''"
proof -
  assume "d < 10"
  then have "digit_char d \<in> set ''0123456789''"
    unfolding digit_char_def by (intro nth_mem) simp
  then show ?thesis by auto
qed

lemma nat_toString_nonempty: "nat_toString n \<noteq> []"
  by (subst nat_toString.simps) simp

lemma nat_toString_small: "n < 10 \<Longrightarrow> nat_toString n = [digit_char n]"
  by (subst nat_toString.simps) simp

lemma nat_toString_big:
  "\<not> n < 10 \<Longrightarrow> nat_toString n = nat_toString (n div 10) @ [digit_char (n mod 10)]"
  by (subst nat_toString.simps) simp

lemma nat_toString_length: "length (nat_toString n) = Suc 0 \<longleftrightarrow> n < 10"
proof (cases "n < 10")
  case True
  then show ?thesis by (simp add: nat_toString_small)
next
  case False
  have "length (nat_toString (n div 10)) \<noteq> 0"
    using nat_toString_nonempty by simp
  with False show ?thesis by (simp add: nat_toString_big)
qed

lemma nat_toString_inj: "nat_toString n = nat_toString m \<Longrightarrow> n = m"
proof (induction n arbitrary: m rule: nat_toString.induct)
  case (1 n)
  show ?case
  proof (cases "n < 10")
    case True
    with "1.prems" have "nat_toString m = [digit_char n]"
      by (simp add: nat_toString_small)
    then have "length (nat_toString m) = 1" by simp
    then have m: "m < 10" by (simp add: nat_toString_length)
    with True "1.prems" show ?thesis
      by (simp add: nat_toString_small digit_char_inj)
  next
    case False
    from "1.prems" have "length (nat_toString m) \<noteq> Suc 0"
      using False nat_toString_length [of n] by simp
    then have m: "\<not> m < 10" by (simp add: nat_toString_length)
    from "1.prems" False m
    have eq: "nat_toString (n div 10) @ [digit_char (n mod 10)] =
          nat_toString (m div 10) @ [digit_char (m mod 10)]"
      by (simp add: nat_toString_big)
    then have "nat_toString (n div 10) = nat_toString (m div 10)" by simp
    with "1.IH" False have q: "n div 10 = m div 10" by blast
    from eq have "digit_char (n mod 10) = digit_char (m mod 10)" by simp
    then have r: "n mod 10 = m mod 10" by (intro digit_char_inj) simp_all
    from q r show ?thesis by (metis div_mult_mod_eq)
  qed
qed

lemma nat_toString_hd: "hd (nat_toString n) \<noteq> CHR ''-''"
proof (induction n rule: nat_toString.induct)
  case (1 n)
  show ?case
  proof (cases "n < 10")
    case True
    then show ?thesis by (simp add: nat_toString_small digit_char_not_minus)
  next
    case False
    with "1.IH" show ?thesis
      by (simp add: nat_toString_big nat_toString_nonempty)
  qed
qed

lemma Number_toString_inj: "Number_toString j = Number_toString k \<longleftrightarrow> j = k"
proof
  assume eq: "Number_toString j = Number_toString k"
  have neg: "a < 0 \<Longrightarrow> \<not> b < 0 \<Longrightarrow> Number_toString a \<noteq> Number_toString b" for a b
  proof
    assume "a < 0" "\<not> b < 0" "Number_toString a = Number_toString b"
    then have "hd (nat_toString (nat b)) = CHR ''-''"
      by (simp add: Number_toString_def) (metis list.sel(1))
    then show False using nat_toString_hd by simp
  qed
  show "j = k"
  proof (cases "j < 0"; cases "k < 0")
    assume "j < 0" "k < 0"
    with eq have "nat (- j) = nat (- k)"
      by (simp add: Number_toString_def nat_toString_inj)
    with \<open>j < 0\<close> \<open>k < 0\<close> show ?thesis by simp
  next
    assume "j < 0" "\<not> k < 0"
    with eq neg show ?thesis by blast
  next
    assume "\<not> j < 0" "k < 0"
    with eq neg [of k j] show ?thesis by simp
  next
    assume "\<not> j < 0" "\<not> k < 0"
    with eq have "nat j = nat k"
      by (simp add: Number_toString_def nat_toString_inj)
    with \<open>\<not> j < 0\<close> \<open>\<not> k < 0\<close> show ?thesis by simp
  qed
qed simp


section \<open>Facts about the machine\<close>

lemma run_events_snoc: "run_events L w (evs @ [e]) = step L (run_events L w evs) e"
  by (simp add: run_events_def)

lemma run_events_Nil: "run_events L w [] = w"
  by (simp add: run_events_def)

lemma run_events_Cons: "run_events L w (e # evs) = run_events L (step L w e) evs"
  by (simp add: run_events_def)

lemma run_events_append:
  "run_events L w (evs @ evs') = run_events L (run_events L w evs) evs'"
  by (simp add: run_events_def)

lemma handleFileUpload_certificates:
  "certificates (fst (handleFileUpload file s)) = certificates s"
  by (simp add: handleFileUpload_def split: option.splits)

lemma simulateUnrevoke_certificates:
  "certificates (fst (simulateUnrevoke s)) = certificates s"
  by (simp add: simulateUnrevoke_def split: option.splits)

lemma handleDownload_state: "fst (handleDownload file nm s) = s"
  by (simp add: handleDownload_def split: option.splits handle.splits)

lemma length_steps: "length steps = 5"
  by (simp add: steps_def)

lemma resume_cases:
  "resume L env r s =
     (if run_i r < 4 then (s, [], Some (r\<lparr>run_i := Suc (run_i r)\<rparr>))
      else (s\<lparr>certificates := newCert L env (run_file r) # certificates s,
              selectedFile := None, fileInputValue := []\<rparr>, [Toast success], None))"
  by (auto simp: resume_def Let_def length_steps complete_def)

lemma step_certificates:
  "certificates (app (step L w e)) = certificates (app w) \<or>
   (\<exists>c. certificates (app (step L w e)) = c # certificates (app w))"
proof (cases e)
  case (Change fo)
  then show ?thesis
    by (simp add: case_prod_beta handleFileUpload_certificates)
next
  case Unrevoke
  then show ?thesis
    by (simp add: case_prod_beta simulateUnrevoke_certificates)
next
  case (Timer k env)
  then show ?thesis
    by (simp add: resume_cases)
next
  case (Download k)
  then show ?thesis
    by (simp add: case_prod_beta handleDownload_state)
qed

lemma run_events_certificates:
  "\<exists>new. certificates (app (run_events L w evs)) = new @ certificates (app w)"
proof (induction evs rule: rev_induct)
  case Nil
  then show ?case by (simp add: run_events_Nil)
next
  case (snoc e evs)
  then obtain new where new: "certificates (app (run_events L w evs)) = new @ certificates (app w)" ..
  from step_certificates [of L "run_events L w evs" e]
  show ?case
  proof
    assume "certificates (app (step L (run_events L w evs) e)) = certificates (app (run_events L w evs))"
    with new show ?thesis by (simp add: run_events_snoc)
  next
    assume "\<exists>c. certificates (app (step L (run_events L w evs) e)) = c # certificates (app (run_events L w evs))"
    then obtain c where "certificates (app (step L (run_events L w evs) e)) = c # certificates (app (run_events L w evs))" ..
    with new have "certificates (app (run_events L w (evs @ [e]))) = (c # new) @ certificates (app w)"
      by (simp add: run_events_snoc)
    then show ?thesis ..
  qed
qed

lemma step_Change:
  "step L w (Change fo) =
     w\<lparr>app := fst (handleFileUpload fo (app w)),
       emitted := emitted w @ snd (handleFileUpload fo (app w))\<rparr>"
  by (simp add: case_prod_beta)

lemma step_Unrevoke_None:
  "selectedFile (app w) = None \<Longrightarrow>
   step L w Unrevoke = w\<lparr>app := app w, emitted := emitted w @ [Toast missing_file]\<rparr>"
  by (simp add: simulateUnrevoke_def)

lemma step_Unrevoke_Some:
  "selectedFile (app w) = Some f \<Longrightarrow>
   step L w Unrevoke =
     w\<lparr>app := (app w)\<lparr>isProcessing := True\<rparr>,
       suspended := suspended w @ [\<lparr>run_file = f, run_i = 0\<rparr>],
       emitted := emitted w\<rparr>"
  by (simp add: simulateUnrevoke_def)

lemma step_Timer_await:
  "k < length (suspended w) \<Longrightarrow> run_i (suspended w ! k) < 4 \<Longrightarrow>
   step L w (Timer k env) =
     w\<lparr>app := app w,
       suspended := (suspended w)[k := (suspended w ! k)\<lparr>run_i := Suc (run_i (suspended w ! k))\<rparr>],
       emitted := emitted w\<rparr>"
  by (simp add: resume_cases)

lemma step_Timer_complete:
  "k < length (suspended w) \<Longrightarrow> \<not> run_i (suspended w ! k) < 4 \<Longrightarrow>
   step L w (Timer k env) =
     w\<lparr>app := (app w)\<lparr>certificates := newCert L env (run_file (suspended w ! k)) # certificates (app w),
                      selectedFile := None, fileInputValue := []\<rparr>,
       suspended := take k (suspended w) @ drop (Suc k) (suspended w),
       emitted := emitted w @ [Toast success]\<rparr>"
  by (simp add: resume_cases)

lemma step_Download:
  "k < length (certificates (app w)) \<Longrightarrow>
   step L w (Download k) =
     w\<lparr>app := app w,
       emitted := emitted w @ snd (handleDownload (file_c (certificates (app w) ! k))
                                     (name_c (certificates (app w) ! k)) (app w))\<rparr>"
  by (simp add: case_prod_beta handleDownload_state)

declare step.simps [simp del]

lemma step_out_of_range:
  "\<not> k < length (suspended w) \<Longrightarrow> step L w (Timer k env) = w"
  "\<not> j < length (certificates (app w)) \<Longrightarrow> step L w (Download j) = w"
  by (simp_all add: step.simps)

lemma handleDownload_Some:
  "handleDownload (Some (FileObject f)) nm s =
     (s, [SaveAs (if endsWith nm ''.p12'' then nm else nm @ ''.p12'') (content f)])"
  by (simp add: handleDownload_def)

lemma files_uploaded_mono: "files_uploaded E w \<Longrightarrow> E \<subseteq> E' \<Longrightarrow> files_uploaded E' w"
  unfolding files_uploaded_def by (fastforce split: option.splits)

lemma in_set_updateD: "r \<in> set (xs[k := r']) \<Longrightarrow> r = r' \<or> r \<in> set xs"
  using set_update_subset_insert [of xs k r'] by auto

lemma files_uploaded_step:
  assumes "files_uploaded E w"
  shows "files_uploaded (insert e E) (step L w e)"
proof -
  from assms have inv: "files_uploaded (insert e E) w"
    by (rule files_uploaded_mono) auto
  show ?thesis
  proof (cases e)
    case (Change fo)
    with inv show ?thesis
      unfolding files_uploaded_def
      by (auto simp: step_Change handleFileUpload_def split: option.splits)
  next
    case Unrevoke
    show ?thesis
    proof (cases "selectedFile (app w)")
      case None
      with inv show ?thesis
        unfolding Unrevoke files_uploaded_def by (simp add: step_Unrevoke_None)
    next
      case (Some f)
      with inv show ?thesis
        unfolding Unrevoke files_uploaded_def by (auto simp: step_Unrevoke_Some)
    qed
  next
    case (Timer k env)
    show ?thesis
    proof (cases "k < length (suspended w)")
      case False
      with inv show ?thesis unfolding Timer by (simp add: step_out_of_range)
    next
      case True
      then have mem: "suspended w ! k \<in> set (suspended w)" by simp
      show ?thesis
      proof (cases "run_i (suspended w ! k) < 4")
        case waits: True
        from inv mem show ?thesis
          unfolding Timer files_uploaded_def step_Timer_await [OF True waits]
          by (auto dest!: in_set_updateD)
      next
        case ends: False
        from inv mem show ?thesis
          unfolding Timer files_uploaded_def step_Timer_complete [OF True ends]
          by (auto simp: newCert_def dest: in_set_takeD in_set_dropD)
      qed
    qed
  next
    case (Download k)
    show ?thesis
    proof (cases "k < length (certificates (app w))")
      case True
      with inv show ?thesis
        unfolding Download files_uploaded_def by (simp add: step_Download)
    next
      case False
      with inv show ?thesis unfolding Download by (simp add: step_out_of_range)
    qed
  qed
qed

lemma files_uploaded_reachable:
  "files_uploaded (set evs) (run_events L initial_world evs)"
proof (induction evs rule: rev_induct)
  case Nil
  show ?case
    by (simp add: run_events_Nil files_uploaded_def initial_world_def initial_state_def)
next
  case (snoc e evs)
  from files_uploaded_step [OF snoc.IH, of e L]
  show ?case by (simp add: run_events_snoc)
qed


text \<open>
  The record a run builds keeps the file of the run, its display name is the result of
  \<open>replace\<close> on the file's name, and its identifier is a function of the clock reading
  alone: two such records share an identifier exactly when their readings are equal.
\<close>

lemma file_c_newCert: "file_c (newCert L env f) = Some (FileObject f)"
  by (simp add: newCert_def)

lemma name_c_newCert: "name_c (newCert L env f) = replace (name f) ''.p12'' []"
  by (simp add: newCert_def)

lemma id_c_newCert: "id_c (newCert L env f) = ''cert_'' @ Number_toString (now_id env)"
  by (simp add: newCert_def)

lemma id_c_newCert_eq_iff:
  "id_c (newCert L env1 f1) = id_c (newCert L' env2 f2) \<longleftrightarrow> now_id env1 = now_id env2"
  by (simp add: id_c_newCert Number_toString_inj)

text \<open>
  One whole run as a sequence of events: the change event that delivers \<open>f\<close>, the call
  of \<open>simulateUnrevoke\<close> and the five timers. From a world without suspended runs it
  ends with one more record, no selection, and \<open>isProcessing\<close> set.
\<close>

lemma one_run_from:
  assumes "endsWith (name f) ''.p12''" and "suspended w = []"
  shows "run_events L w (one_run f env) =
     w\<lparr>app := (app w)\<lparr>certificates := newCert L env f # certificates (app w),
                      selectedFile := None, isProcessing := True, fileInputValue := []\<rparr>,
       suspended := [],
       emitted := emitted w @
         [Toast \<lparr>title = ''Certificate uploaded'',
                 description = name f @ '' ready for processing'', variant = Default\<rparr>,
          Toast success]\<rparr>"
  using assms
  by (simp add: run_events_def one_run_def step_Change handleFileUpload_def
      step_Unrevoke_Some step_Timer_await step_Timer_complete)

lemma one_run_initial:
  assumes "endsWith (name f) ''.p12''"
  shows "run_events L initial_world (one_run f env) =
     \<lparr>app = \<lparr>certificates = [newCert L env f], selectedFile = None,
             isProcessing = True, fileInputValue = []\<rparr>,
      suspended = [],
      emitted = [Toast \<lparr>title = ''Certificate uploaded'',
                        description = name f @ '' ready for processing'', variant = Default\<rparr>,
                 Toast success]\<rparr>"
proof -
  have "suspended initial_world = []" by (simp add: initial_world_def)
  from one_run_from [OF assms this] show ?thesis
    by (simp add: initial_world_def initial_state_def)
qed

lemma endsWith_examples:
  "endsWith (name mycert) ''.p12''" "endsWith (name backup_cert) ''.p12''"
  by (simp_all add: endsWith_def mycert_def backup_cert_def)

lemma one_run_mycert:
  "run_events ms_date initial_world (one_run mycert env_a) =
     \<lparr>app = \<lparr>certificates = [newCert ms_date env_a mycert], selectedFile = None,
             isProcessing = True, fileInputValue = []\<rparr>,
      suspended = [],
      emitted = [Toast \<lparr>title = ''Certificate uploaded'',
                        description = ''mycert.p12 ready for processing'',
                        variant = Default\<rparr>,
                 Toast success]\<rparr>"
  using one_run_initial [OF endsWith_examples(1), of ms_date env_a]
  by (simp add: mycert_def)

lemma two_runs:
  "run_events ms_date initial_world (one_run mycert e1 @ one_run backup_cert e2) =
     \<lparr>app = \<lparr>certificates = [newCert ms_date e2 backup_cert, newCert ms_date e1 mycert],
             selectedFile = None, isProcessing = True, fileInputValue = []\<rparr>,
      suspended = [],
      emitted = [Toast \<lparr>title = ''Certificate uploaded'',
                        description = ''mycert.p12 ready for processing'', variant = Default\<rparr>,
                 Toast success,
                 Toast \<lparr>title = ''Certificate uploaded'',
                        description = ''dev.p12.backup.p12 ready for processing'',
                        variant = Default\<rparr>,
                 Toast success]\<rparr>"
  by (simp add: run_events_append one_run_initial one_run_from endsWith_examples)
     (simp add: mycert_def backup_cert_def)










section \<open>The claims\<close>

text \<open>
  Claim C1. A run started with a file selected, after its five timers, prepends exactly
  one record to \<open>certificates\<close> and sets \<open>selectedFile\<close> to absent. The busy flag
  \<open>isProcessing\<close>, however, is not false afterwards: \<open>simulateUnrevoke\<close> sets it and
  nothing in App.tsx clears it, so it is true after every completed run.
\<close>

theorem completed_run_leaves_isProcessing_set:
  assumes "selectedFile (app w) = Some f"
  shows "app (run_events L w
           [Unrevoke, Timer (length (suspended w)) e1, Timer (length (suspended w)) e2,
            Timer (length (suspended w)) e3, Timer (length (suspended w)) e4,
            Timer (length (suspended w)) e5]) =
         (app w)\<lparr>certificates := newCert L e5 f # certificates (app w),
                  selectedFile := None, isProcessing := True, fileInputValue := []\<rparr>"
  using assms
  by (simp add: run_events_def step_Unrevoke_Some step_Timer_await step_Timer_complete)

text \<open>
  The instance at the file \<open>mycert.p12\<close>, selected in the initial state, where the
  flag was false before the run.
\<close>

theorem completed_run_leaves_isProcessing_set_witness:
  "selectedFile (app (run_events ms_date initial_world [Change (Some mycert)])) = Some mycert \<and>
   isProcessing (app (run_events ms_date initial_world [Change (Some mycert)])) = False \<and>
   app (run_events ms_date (run_events ms_date initial_world [Change (Some mycert)])
          [Unrevoke, Timer 0 env_a, Timer 0 env_a, Timer 0 env_a, Timer 0 env_a, Timer 0 env_a]) =
     \<lparr>certificates = [newCert ms_date env_a mycert], selectedFile = None,
      isProcessing = True, fileInputValue = []\<rparr>"
proof -
  have w0: "run_events ms_date initial_world [Change (Some mycert)] =
     \<lparr>app = \<lparr>certificates = [], selectedFile = Some mycert, isProcessing = False,
             fileInputValue = []\<rparr>,
      suspended = [],
      emitted = [Toast \<lparr>title = ''Certificate uploaded'',
                        description = ''mycert.p12 ready for processing'',
                        variant = Default\<rparr>]\<rparr>"
    by (simp add: run_events_def initial_world_def initial_state_def step_Change
        handleFileUpload_def endsWith_def mycert_def)
  have h: "selectedFile (app (run_events ms_date initial_world [Change (Some mycert)])) = Some mycert"
    by (simp add: w0)
  from completed_run_leaves_isProcessing_set [OF h, of ms_date env_a env_a env_a env_a env_a]
  show ?thesis by (simp add: w0)
qed

text \<open>
  Claim C2. For every file \<open>f\<close>, \<open>handleFileUpload\<close> accepts \<open>f\<close> if and only if the
  name of \<open>f\<close> ends with the literal suffix \<open>.p12\<close>. On accept the selection becomes
  \<open>f\<close> and the notification names the file; on reject the state, and so the current
  selection, is unchanged and the invalid-format notification is emitted.
\<close>

theorem handleFileUpload_accepts_iff_p12_suffix:
  "handleFileUpload (Some f) s =
     (if \<exists>p. name f = p @ ''.p12''
      then (s\<lparr>selectedFile := Some f\<rparr>,
            [Toast \<lparr>title = ''Certificate uploaded'',
                    description = name f @ '' ready for processing'',
                    variant = Default\<rparr>])
      else (s, [Toast invalid_format]))"
  by (simp add: handleFileUpload_def endsWith_iff_append)

text \<open>
  \<open>mycert.p12\<close> replaces an earlier selection; \<open>MYCERT.P12\<close> is rejected (the
  comparison is case-sensitive) and the earlier selection stays.
\<close>

theorem handleFileUpload_accepts_iff_p12_suffix_witness:
  "handleFileUpload (Some mycert) (initial_state\<lparr>selectedFile := Some backup_cert\<rparr>) =
     (initial_state\<lparr>selectedFile := Some mycert\<rparr>,
      [Toast \<lparr>title = ''Certificate uploaded'',
              description = ''mycert.p12 ready for processing'',
              variant = Default\<rparr>]) \<and>
   handleFileUpload (Some upper_cert) (initial_state\<lparr>selectedFile := Some backup_cert\<rparr>) =
     (initial_state\<lparr>selectedFile := Some backup_cert\<rparr>, [Toast invalid_format])"
proof -
  have yes: "\<exists>p. name mycert = p @ ''.p12''"
    by (simp add: mycert_def)
  have no: "\<not> (\<exists>p. name upper_cert = p @ ''.p12'')"
    using endsWith_iff_append [of "name upper_cert" "''.p12''"]
    by (simp add: upper_cert_def endsWith_def)
  show ?thesis
    using handleFileUpload_accepts_iff_p12_suffix [of mycert "initial_state\<lparr>selectedFile := Some backup_cert\<rparr>"]
      handleFileUpload_accepts_iff_p12_suffix [of upper_cert "initial_state\<lparr>selectedFile := Some backup_cert\<rparr>"]
      yes no
    by (simp add: mycert_def)
qed

text \<open>
  Claim C3. In every state without a selected file, \<open>simulateUnrevoke\<close> emits the
  destructive "Missing file" notification, suspends no run, and returns the state as it
  was: records, selection and busy flag are unchanged.
\<close>

theorem simulateUnrevoke_without_file:
  assumes "selectedFile s = None"
  shows "simulateUnrevoke s = (s, [Toast missing_file], None) \<and>
         variant missing_file = Destructive"
  using assms by (simp add: simulateUnrevoke_def missing_file_def)

theorem simulateUnrevoke_without_file_witness:
  "selectedFile initial_state = None \<and>
   simulateUnrevoke initial_state = (initial_state, [Toast missing_file], None)"
proof -
  have h: "selectedFile initial_state = None" by (simp add: initial_state_def)
  from simulateUnrevoke_without_file [OF h] h show ?thesis by simp
qed

text \<open>
  Claim C4. The upload-then-export round trip is the identity on a file's content. In
  every world reachable from the initial one, if the record at position \<open>k\<close> holds a
  handle, then the handle is a File object \<open>f\<close> that a change event delivered, and the
  download of that record emits exactly one save whose bytes are the content of \<open>f\<close>.
\<close>

theorem download_round_trip:
  assumes "k < length (certificates (app (run_events L initial_world evs)))"
    and "file_c (certificates (app (run_events L initial_world evs)) ! k) = Some h"
  shows "\<exists>f. h = FileObject f \<and> Change (Some f) \<in> set evs \<and>
         (\<exists>nm. emitted (run_events L initial_world (evs @ [Download k])) =
                 emitted (run_events L initial_world evs) @ [SaveAs nm (content f)])"
proof -
  from assms(1)
  have "certificates (app (run_events L initial_world evs)) ! k
          \<in> set (certificates (app (run_events L initial_world evs)))"
    by simp
  with files_uploaded_reachable [of evs L] assms(2)
  obtain f where h: "h = FileObject f" and up: "Change (Some f) \<in> set evs"
    unfolding files_uploaded_def by fastforce
  from assms h
  have "emitted (run_events L initial_world (evs @ [Download k])) =
          emitted (run_events L initial_world evs) @
          [SaveAs (if endsWith (name_c (certificates (app (run_events L initial_world evs)) ! k)) ''.p12''
                   then name_c (certificates (app (run_events L initial_world evs)) ! k)
                   else name_c (certificates (app (run_events L initial_world evs)) ! k) @ ''.p12'')
             (content f)]"
    by (simp add: run_events_snoc step_Download handleDownload_Some)
  then have "\<exists>nm. emitted (run_events L initial_world (evs @ [Download k])) =
                 emitted (run_events L initial_world evs) @ [SaveAs nm (content f)]" ..
  with h up show ?thesis by blast
qed

theorem download_round_trip_witness:
  "0 < length (certificates (app (run_events ms_date initial_world (one_run mycert env_a)))) \<and>
   file_c (certificates (app (run_events ms_date initial_world (one_run mycert env_a))) ! 0) =
     Some (FileObject mycert) \<and>
   Change (Some mycert) \<in> set (one_run mycert env_a) \<and>
   emitted (run_events ms_date initial_world (one_run mycert env_a @ [Download 0])) =
     emitted (run_events ms_date initial_world (one_run mycert env_a)) @
     [SaveAs ''mycert.p12'' (content mycert)]"
proof -
  have h1: "0 < length (certificates (app (run_events ms_date initial_world (one_run mycert env_a))))"
    by (simp add: one_run_mycert)
  have h2: "file_c (certificates (app (run_events ms_date initial_world (one_run mycert env_a))) ! 0) =
     Some (FileObject mycert)"
    by (simp add: one_run_mycert file_c_newCert)
  have nm: "name_c (newCert ms_date env_a mycert) = ''mycert''"
    by (simp add: newCert_def mycert_def replace_def)
  have out: "emitted (run_events ms_date initial_world (one_run mycert env_a @ [Download 0])) =
     emitted (run_events ms_date initial_world (one_run mycert env_a)) @
     [SaveAs ''mycert.p12'' (content mycert)]"
    by (simp add: run_events_snoc step_Download one_run_mycert handleDownload_Some nm endsWith_def
        file_c_newCert)
  from download_round_trip [OF h1 h2] h1 h2 out show ?thesis by simp
qed

text \<open>
  Claim C5. The display name is meant to be the file's name without its \<open>.p12\<close>
  extension, and the export to give the original name back. \<open>replace\<close> removes the
  first occurrence of \<open>.p12\<close>, which need not be the suffix: the accepted file
  \<open>dev.p12.backup.p12\<close> gets the display name \<open>dev.backup.p12\<close> (not
  \<open>dev.p12.backup\<close>), and the export, finding that this name already ends with
  \<open>.p12\<close>, saves under \<open>dev.backup.p12\<close> (not under the original name).
\<close>

theorem display_name_drops_first_p12_occurrence:
  "name backup_cert = ''dev.p12.backup.p12'' \<and>
   map name_c (certificates (app (run_events ms_date initial_world (one_run backup_cert env_a)))) =
     [''dev.backup.p12''] \<and>
   emitted (run_events ms_date initial_world (one_run backup_cert env_a @ [Download 0])) =
     [Toast \<lparr>title = ''Certificate uploaded'',
             description = ''dev.p12.backup.p12 ready for processing'', variant = Default\<rparr>,
      Toast success,
      SaveAs ''dev.backup.p12'' (content backup_cert)]"
proof -
  have nm: "replace (name backup_cert) ''.p12'' [] = ''dev.backup.p12''"
    by (simp add: backup_cert_def replace_def)
  have ew: "endsWith ''dev.backup.p12'' ''.p12''"
    by (simp add: endsWith_def)
  have run: "run_events ms_date initial_world (one_run backup_cert env_a) =
     \<lparr>app = \<lparr>certificates = [newCert ms_date env_a backup_cert], selectedFile = None,
             isProcessing = True, fileInputValue = []\<rparr>,
      suspended = [],
      emitted = [Toast \<lparr>title = ''Certificate uploaded'',
                        description = ''dev.p12.backup.p12 ready for processing'',
                        variant = Default\<rparr>,
                 Toast success]\<rparr>"
    by (simp add: one_run_initial endsWith_examples) (simp add: backup_cert_def)
  show ?thesis
    by (simp add: run_events_append run_events_Cons run_events_Nil run step_Download
        name_c_newCert file_c_newCert handleDownload_Some nm ew)
       (simp add: backup_cert_def)
qed

text \<open>
  Claim C6. The record list only grows at its front. One event leaves it unchanged or
  puts exactly one record before it; after any sequence of events the list it started
  from is still its tail, entry for entry; and two completions in a row leave the later
  record first.
\<close>

theorem record_store_only_prepends:
  "(certificates (app (step L w e)) = certificates (app w) \<or>
    (\<exists>c. certificates (app (step L w e)) = c # certificates (app w))) \<and>
   (\<exists>new. certificates (app (run_events L w evs)) = new @ certificates (app w)) \<and>
   certificates (fst (complete L env2 f2 (fst (complete L env1 f1 s)))) =
     newCert L env2 f2 # newCert L env1 f1 # certificates s"
proof (intro conjI)
  show "certificates (app (step L w e)) = certificates (app w) \<or>
    (\<exists>c. certificates (app (step L w e)) = c # certificates (app w))"
    by (rule step_certificates)
  show "\<exists>new. certificates (app (run_events L w evs)) = new @ certificates (app w)"
    by (rule run_events_certificates)
  show "certificates (fst (complete L env2 f2 (fst (complete L env1 f1 s)))) =
     newCert L env2 f2 # newCert L env1 f1 # certificates s"
    by (simp add: complete_def)
qed

text \<open>
  Two runs from the initial world, producing \<open>R1\<close> for \<open>mycert.p12\<close> and then
  \<open>R2\<close> for \<open>dev.p12.backup.p12\<close>: the list is \<open>[R2, R1]\<close>.
\<close>

theorem record_store_only_prepends_witness:
  "certificates (app (run_events ms_date initial_world (one_run mycert env_a))) =
     [newCert ms_date env_a mycert] \<and>
   certificates (app (run_events ms_date initial_world
                       (one_run mycert env_a @ one_run backup_cert env_b))) =
     [newCert ms_date env_b backup_cert, newCert ms_date env_a mycert] \<and>
   certificates (fst (complete ms_date env_b backup_cert
                       (fst (complete ms_date env_a mycert initial_state)))) =
     [newCert ms_date env_b backup_cert, newCert ms_date env_a mycert]"
  using record_store_only_prepends [of ms_date initial_world Unrevoke "[]" env_b backup_cert
      env_a mycert initial_state]
  by (simp add: two_runs one_run_mycert) (simp add: initial_state_def)

text \<open>
  Claim C7. For every record whose \<open>file\<close> is absent, and for every record whose
  \<open>file\<close> is a value that is not a Blob, \<open>handleDownload\<close> emits the destructive
  "Download failed" notification and nothing else, and the state, with its record list,
  is unchanged.
\<close>

theorem handleDownload_without_file:
  assumes "file_c c = None \<or> (\<exists>h. file_c c = Some h \<and> \<not> instanceof_Blob h)"
  shows "handleDownload (file_c c) (name_c c) s = (s, [Toast download_failed]) \<and>
         variant download_failed = Destructive"
  using assms by (auto simp: handleDownload_def download_failed_def)

text \<open>
  One record of each kind: \<open>orphan\<close> has no \<open>file\<close>, \<open>forged\<close> holds a value that is not
  a Blob.
\<close>

theorem handleDownload_without_file_witness:
  "file_c orphan = None \<and>
   handleDownload (file_c orphan) (name_c orphan) (initial_state\<lparr>certificates := [orphan]\<rparr>) =
     (initial_state\<lparr>certificates := [orphan]\<rparr>, [Toast download_failed]) \<and>
   file_c forged = Some NotABlob \<and> \<not> instanceof_Blob NotABlob \<and>
   handleDownload (file_c forged) (name_c forged) (initial_state\<lparr>certificates := [forged]\<rparr>) =
     (initial_state\<lparr>certificates := [forged]\<rparr>, [Toast download_failed])"
proof -
  have h: "file_c orphan = None" by (simp add: orphan_def)
  then have a: "file_c orphan = None \<or> (\<exists>h. file_c orphan = Some h \<and> \<not> instanceof_Blob h)" ..
  have g: "file_c forged = Some NotABlob" by (simp add: forged_def)
  have n: "\<not> instanceof_Blob NotABlob" by simp
  from g n have "\<exists>h. file_c forged = Some h \<and> \<not> instanceof_Blob h" by blast
  then have b: "file_c forged = None \<or> (\<exists>h. file_c forged = Some h \<and> \<not> instanceof_Blob h)" ..
  from handleDownload_without_file [OF a, of "initial_state\<lparr>certificates := [orphan]\<rparr>"]
    handleDownload_without_file [OF b, of "initial_state\<lparr>certificates := [forged]\<rparr>"] h g n
  show ?thesis by simp
qed



text \<open>
  Claim C9. In every world reachable from the initial one, every record in the list
  holds a File object, so \<open>handleDownload\<close> on it emits the save of that file's content
  and never the "Download failed" notification.
\<close>

theorem pipeline_records_keep_their_file:
  "\<forall>c \<in> set (certificates (app (run_events L initial_world evs))).
     \<exists>f. file_c c = Some (FileObject f) \<and>
         handleDownload (file_c c) (name_c c) s =
           (s, [SaveAs (if endsWith (name_c c) ''.p12'' then name_c c else name_c c @ ''.p12'')
                  (content f)]) \<and>
         handleDownload (file_c c) (name_c c) s \<noteq> (s, [Toast download_failed])"
proof
  fix c
  assume "c \<in> set (certificates (app (run_events L initial_world evs)))"
  with files_uploaded_reachable [of evs L] obtain f where "file_c c = Some (FileObject f)"
    unfolding files_uploaded_def by blast
  then show "\<exists>f. file_c c = Some (FileObject f) \<and>
         handleDownload (file_c c) (name_c c) s =
           (s, [SaveAs (if endsWith (name_c c) ''.p12'' then name_c c else name_c c @ ''.p12'')
                  (content f)]) \<and>
         handleDownload (file_c c) (name_c c) s \<noteq> (s, [Toast download_failed])"
    by (simp add: handleDownload_Some)
qed

theorem pipeline_records_keep_their_file_witness:
  "certificates (app (run_events ms_date initial_world (one_run mycert env_a))) =
     [newCert ms_date env_a mycert] \<and>
   file_c (newCert ms_date env_a mycert) = Some (FileObject mycert) \<and>
   handleDownload (file_c (newCert ms_date env_a mycert)) (name_c (newCert ms_date env_a mycert))
       initial_state =
     (initial_state, [SaveAs ''mycert.p12'' [0x30, 0x82, 0x0A, 0x01]])"
proof -
  have certs: "certificates (app (run_events ms_date initial_world (one_run mycert env_a))) =
     [newCert ms_date env_a mycert]"
    by (simp add: one_run_mycert)
  have "newCert ms_date env_a mycert \<in> set (certificates (app (run_events ms_date initial_world (one_run mycert env_a))))"
    by (simp add: certs)
  with pipeline_records_keep_their_file [of ms_date "one_run mycert env_a" initial_state]
  have "\<exists>f. file_c (newCert ms_date env_a mycert) = Some (FileObject f) \<and>
         handleDownload (file_c (newCert ms_date env_a mycert)) (name_c (newCert ms_date env_a mycert)) initial_state =
           (initial_state, [SaveAs (if endsWith (name_c (newCert ms_date env_a mycert)) ''.p12'' then name_c (newCert ms_date env_a mycert) else name_c (newCert ms_date env_a mycert) @ ''.p12'')
                  (content f)])"
    by blast
  then have "handleDownload (file_c (newCert ms_date env_a mycert)) (name_c (newCert ms_date env_a mycert)) initial_state =
     (initial_state, [SaveAs ''mycert.p12'' [0x30, 0x82, 0x0A, 0x01]])"
    by (auto simp: newCert_def mycert_def replace_def endsWith_def)
  with certs show ?thesis by (simp add: file_c_newCert)
qed

text \<open>
  Claim C10. A change event without a file takes the rejection path: the destructive
  invalid-format notification and an unchanged state, the same result as for a file whose
  name does not end with \<open>.p12\<close>.
\<close>

theorem handleFileUpload_empty_selection:
  "handleFileUpload None s = (s, [Toast invalid_format]) \<and>
   variant invalid_format = Destructive \<and>
   (\<not> endsWith (name f) ''.p12'' \<longrightarrow> handleFileUpload (Some f) s = handleFileUpload None s)"
  by (simp add: handleFileUpload_def invalid_format_def)

theorem handleFileUpload_empty_selection_witness:
  "\<not> endsWith (name upper_cert) ''.p12'' \<and>
   handleFileUpload None (initial_state\<lparr>selectedFile := Some mycert\<rparr>) =
     (initial_state\<lparr>selectedFile := Some mycert\<rparr>, [Toast invalid_format]) \<and>
   handleFileUpload (Some upper_cert) (initial_state\<lparr>selectedFile := Some mycert\<rparr>) =
     handleFileUpload None (initial_state\<lparr>selectedFile := Some mycert\<rparr>)"
proof -
  have h: "\<not> endsWith (name upper_cert) ''.p12''"
    by (simp add: upper_cert_def endsWith_def)
  from handleFileUpload_empty_selection [of "initial_state\<lparr>selectedFile := Some mycert\<rparr>" upper_cert] h
  show ?thesis by simp
qed

end
